theory Spec2Isabelle
  imports Main "HOL-Library.Multiset" "HOL-Library.List_Lexorder" "HOL-Library.Char_ord"
begin

section \<open>Layers, references and the object store\<close>

text \<open>
  The layer stores of \<^verbatim>\<open>layer_store.py\<close> hold references to \<^verbatim>\<open>Layer\<close> objects.
  One method (\<^verbatim>\<open>SetLayerStore.special\<close>) assigns to a field of the objects it references,
  so objects live in an explicit store: a reference is an address and the heap maps each
  address to the object's fields. Two slots holding the same reference alias one object.
  Python integers are unbounded, hence \<open>int\<close>.
\<close>

type_synonym rgb = "int \<times> int \<times> int"

type_synonym ref = nat

text \<open>
  Modelled from the spec: the class \<^verbatim>\<open>Layer\<close> (module \<^verbatim>\<open>layer_util\<close>) is imported by
  \<^verbatim>\<open>layer_store.py\<close> but is not among the source files. The record has the fields of the
  spec's data model (\<open>index\<close>, \<open>name\<close>, \<open>apply\<close>, \<open>color\<close>) and the further attributes
  that \<^verbatim>\<open>SequenceLayerStore.get_color\<close> reads (\<open>timestamp\<close>, \<open>start\<close>, \<open>get_color\<close>).
  The field \<open>apply\<close> is written \<open>apply_l\<close> and the method \<open>get_color\<close> of a layer
  \<open>get_color_l\<close>.
\<close>

record Layer =
  index :: int
  name :: string
  apply_l :: "rgb \<Rightarrow> int \<Rightarrow> int \<Rightarrow> int \<Rightarrow> rgb"
  color :: rgb
  timestamp :: int
  start :: int
  get_color_l :: "int \<Rightarrow> int \<Rightarrow> rgb"

type_synonym heap = "ref \<Rightarrow> Layer"

text \<open>The exceptions the modelled code can raise.\<close>

datatype error =
  IndexError | AttributeError | NameError | StackEmpty | StackFull | QueueEmpty | QueueFull

text \<open>
  The value of a method that ends without a \<^verbatim>\<open>return\<close> statement is \<^verbatim>\<open>None\<close>;
  \<open>pyval\<close> keeps it apart from the booleans.
\<close>

datatype pyval = PyNone | PyBool bool

section \<open>The containers\<close>

text \<open>
  Modelled from the spec: the package \<^verbatim>\<open>data_structures\<close> (\<^verbatim>\<open>ArrayR\<close>,
  \<^verbatim>\<open>ArrayStack\<close>, \<^verbatim>\<open>CircularQueue\<close>, \<^verbatim>\<open>ArraySortedList\<close>) is imported but is not among
  the source files. \<^verbatim>\<open>ArrayR(n)\<close> is the spec's fixed-capacity slot array: \<open>n\<close> slots, all
  empty at first, an access outside \<open>0..n-1\<close> raises \<^verbatim>\<open>IndexError\<close>.
\<close>

definition ArrayR :: "nat \<Rightarrow> 'a option list" where
  "ArrayR n = replicate n None"

definition array_get :: "'a list \<Rightarrow> int \<Rightarrow> error + 'a" where
  "array_get a i = (if 0 \<le> i \<and> i < int (length a) then Inr (a ! nat i) else Inl IndexError)"

definition array_set :: "'a list \<Rightarrow> int \<Rightarrow> 'a \<Rightarrow> error + 'a list" where
  "array_set a i v = (if 0 \<le> i \<and> i < int (length a) then Inr (a[nat i := v]) else Inl IndexError)"

section \<open>SetLayerStore\<close>

text \<open>
  \<^verbatim>\<open>self.layer\<close> is the current layer, \<^verbatim>\<open>self.layers\<close> the array of 20 slots indexed by
  \<^verbatim>\<open>layer.index\<close>.
\<close>

record SetLayerStore =
  layer :: "ref option"
  layers :: "ref option list"

definition set_init :: SetLayerStore where
  "set_init = \<lparr>layer = None, layers = ArrayR 20\<rparr>"

text \<open>\<^verbatim>\<open>add\<close>: the argument may be \<^verbatim>\<open>None\<close>; the slot is written before the current layer.\<close>

definition set_add :: "heap \<Rightarrow> SetLayerStore \<Rightarrow> ref option \<Rightarrow> error + (SetLayerStore \<times> bool)" where
  "set_add h s l =
     (case l of
        Some r \<Rightarrow>
          (case array_set (layers s) (index (h r)) (Some r) of
             Inl e \<Rightarrow> Inl e
           | Inr a \<Rightarrow> Inr (s\<lparr>layers := a, layer := Some r\<rparr>, True))
      | None \<Rightarrow> Inr (s, False))"

definition set_erase :: "heap \<Rightarrow> SetLayerStore \<Rightarrow> ref \<Rightarrow> error + (SetLayerStore \<times> bool)" where
  "set_erase h s r =
     (case array_get (layers s) (index (h r)) of
        Inl e \<Rightarrow> Inl e
      | Inr v \<Rightarrow>
          (if v \<noteq> None then
             (case array_set (layers s) (index (h r)) None of
                Inl e \<Rightarrow> Inl e
              | Inr a \<Rightarrow> Inr (s\<lparr>layers := a, layer := None\<rparr>, True))
           else Inr (s, False)))"

definition set_get_color :: "heap \<Rightarrow> SetLayerStore \<Rightarrow> rgb \<Rightarrow> int \<Rightarrow> int \<Rightarrow> int \<Rightarrow> rgb" where
  "set_get_color h s c ts x y =
     (case layer s of
        Some r \<Rightarrow> apply_l (h r) c ts x y
      | None \<Rightarrow> c)"

definition invert_color :: "(rgb \<Rightarrow> int \<Rightarrow> int \<Rightarrow> int \<Rightarrow> rgb) \<Rightarrow> rgb \<Rightarrow> int \<Rightarrow> int \<Rightarrow> int \<Rightarrow> rgb" where
  "invert_color f = (\<lambda>c ts x y. case f c ts x y of (r, g, b) \<Rightarrow> (255 - r, 255 - g, 255 - b))"

text \<open>
  The body of the loop of \<^verbatim>\<open>special\<close> at slot \<open>i\<close>: the assignment
  \<^verbatim>\<open>self.layers[i].apply = self.invert_color(self.layers[i].apply)\<close> updates the object that
  the slot references.
\<close>

definition set_special_step :: "ref option list \<Rightarrow> nat \<Rightarrow> heap \<Rightarrow> heap" where
  "set_special_step a i h =
     (case a ! i of
        Some r \<Rightarrow> h(r := (h r)\<lparr>apply_l := invert_color (apply_l (h r))\<rparr>)
      | None \<Rightarrow> h)"

text \<open>\<^verbatim>\<open>special\<close> changes no field of the store itself, only the heap.\<close>

definition set_special :: "heap \<Rightarrow> SetLayerStore \<Rightarrow> heap" where
  "set_special h s = fold (set_special_step (layers s)) [0..<length (layers s)] h"

section \<open>AdditiveLayerStore\<close>

text \<open>
  Modelled from the spec: \<^verbatim>\<open>ArrayStack\<close> and \<^verbatim>\<open>CircularQueue\<close> are not among the source
  files. Both have a fixed maximum capacity and adding beyond it is a reported error (the
  spec's capacity overflow); taking from an empty one is an error as well. A stack is the
  list of its elements with the top first, a queue the list of its elements with the front
  first. \<^verbatim>\<open>top\<close>, which \<^verbatim>\<open>special\<close> calls, is read as \<^verbatim>\<open>peek\<close>.
\<close>

definition stack_push :: "nat \<Rightarrow> 'a list \<Rightarrow> 'a \<Rightarrow> error + 'a list" where
  "stack_push cap st v = (if cap \<le> length st then Inl StackFull else Inr (v # st))"

definition stack_pop :: "'a list \<Rightarrow> error + ('a \<times> 'a list)" where
  "stack_pop st = (case st of [] \<Rightarrow> Inl StackEmpty | v # st' \<Rightarrow> Inr (v, st'))"

definition stack_peek :: "'a list \<Rightarrow> error + 'a" where
  "stack_peek st = (case st of [] \<Rightarrow> Inl StackEmpty | v # st' \<Rightarrow> Inr v)"

definition queue_append :: "nat \<Rightarrow> 'a list \<Rightarrow> 'a \<Rightarrow> error + 'a list" where
  "queue_append cap q v = (if cap \<le> length q then Inl QueueFull else Inr (q @ [v]))"

definition queue_serve :: "'a list \<Rightarrow> error + ('a \<times> 'a list)" where
  "queue_serve q = (case q of [] \<Rightarrow> Inl QueueEmpty | v # q' \<Rightarrow> Inr (v, q'))"

text \<open>
  \<^verbatim>\<open>add\<close> takes an \<^verbatim>\<open>Optional[Layer]\<close>, so the elements of both containers are optional
  references.
\<close>

record AdditiveLayerStore =
  stack :: "ref option list"
  queue :: "ref option list"

definition additive_init :: AdditiveLayerStore where
  "additive_init = \<lparr>stack = [], queue = []\<rparr>"

definition additive_add :: "AdditiveLayerStore \<Rightarrow> ref option \<Rightarrow> error + AdditiveLayerStore" where
  "additive_add s l =
     (case stack_push 100 (stack s) l of
        Inl e \<Rightarrow> Inl e
      | Inr st \<Rightarrow>
          (case queue_append 100 (queue s) l of
             Inl e \<Rightarrow> Inl e
           | Inr q \<Rightarrow> Inr \<lparr>stack = st, queue = q\<rparr>))"

text \<open>A run of \<^verbatim>\<open>add\<close> calls; the first exception ends it.\<close>

fun additive_adds :: "AdditiveLayerStore \<Rightarrow> ref option list \<Rightarrow> error + AdditiveLayerStore" where
  "additive_adds s [] = Inr s"
| "additive_adds s (l # ls) =
     (case additive_add s l of
        Inl e \<Rightarrow> Inl e
      | Inr s' \<Rightarrow> additive_adds s' ls)"

text \<open>The loop of \<^verbatim>\<open>special\<close>: \<open>n\<close> times \<^verbatim>\<open>self.queue.append(self.queue.serve())\<close>.\<close>

fun special_loop :: "nat \<Rightarrow> 'a list \<Rightarrow> error + 'a list" where
  "special_loop 0 q = Inr q"
| "special_loop (Suc n) q =
     (case queue_serve q of
        Inl e \<Rightarrow> Inl e
      | Inr (v, q') \<Rightarrow>
          (case queue_append 100 q' v of
             Inl e \<Rightarrow> Inl e
           | Inr q'' \<Rightarrow> special_loop n q''))"

definition additive_special :: "AdditiveLayerStore \<Rightarrow> error + AdditiveLayerStore" where
  "additive_special s =
     (case stack_peek (stack s) of
        Inl e \<Rightarrow> Inl e
      | Inr l \<Rightarrow>
     (case stack_pop (stack s) of
        Inl e \<Rightarrow> Inl e
      | Inr (_, st1) \<Rightarrow>
     (case stack_push 100 st1 l of
        Inl e \<Rightarrow> Inl e
      | Inr st2 \<Rightarrow>
     (case queue_append 100 (queue s) l of
        Inl e \<Rightarrow> Inl e
      | Inr q1 \<Rightarrow>
     (case special_loop (length q1 - 1) q1 of
        Inl e \<Rightarrow> Inl e
      | Inr q2 \<Rightarrow> Inr \<lparr>stack = st2, queue = q2\<rparr>)))))"

text \<open>\<^verbatim>\<open>layer.color if isinstance(layer, Layer) else (0, 0, 0)\<close>\<close>

definition layer_color :: "heap \<Rightarrow> ref option \<Rightarrow> rgb" where
  "layer_color h l = (case l of Some r \<Rightarrow> color (h r) | None \<Rightarrow> (0, 0, 0))"

text \<open>\<^verbatim>\<open>for i in range(3): color[i] += layer_color[i]\<close>\<close>

fun add_rgb :: "rgb \<Rightarrow> rgb \<Rightarrow> rgb" where
  "add_rgb (r, g, b) (r', g', b') = (r + r', g + g', b + b')"

text \<open>
  The first loop of \<^verbatim>\<open>get_color\<close> pops every layer, adds its color and pushes it on the
  temporary stack; the second pushes the layers back.
\<close>

fun get_color_loop :: "heap \<Rightarrow> ref option list \<Rightarrow> rgb \<Rightarrow> ref option list \<Rightarrow> error + (rgb \<times> ref option list)" where
  "get_color_loop h [] c tmp = Inr (c, tmp)"
| "get_color_loop h (l # st) c tmp =
     (case stack_push 100 tmp l of
        Inl e \<Rightarrow> Inl e
      | Inr tmp' \<Rightarrow> get_color_loop h st (add_rgb c (layer_color h l)) tmp')"

fun restore_loop :: "'a list \<Rightarrow> 'a list \<Rightarrow> error + 'a list" where
  "restore_loop [] st = Inr st"
| "restore_loop (l # tmp) st =
     (case stack_push 100 st l of
        Inl e \<Rightarrow> Inl e
      | Inr st' \<Rightarrow> restore_loop tmp st')"

definition additive_get_color ::
  "heap \<Rightarrow> AdditiveLayerStore \<Rightarrow> rgb \<Rightarrow> int \<Rightarrow> int \<Rightarrow> int \<Rightarrow> error + (AdditiveLayerStore \<times> rgb)" where
  "additive_get_color h s background_color x y z =
     (case get_color_loop h (stack s) background_color [] of
        Inl e \<Rightarrow> Inl e
      | Inr (c, tmp) \<Rightarrow>
          (case restore_loop tmp [] of
             Inl e \<Rightarrow> Inl e
           | Inr st \<Rightarrow> Inr (s\<lparr>stack := st\<rparr>, c)))"

text \<open>
  \<^verbatim>\<open>erase(index)\<close>. The first loop runs \<open>i\<close> over \<^verbatim>\<open>range(len(self.stack))\<close>, fixed when the
  loop starts: it pops from the top of the stack, stops after popping at \<open>i = index\<close> and
  keeps the layers popped before in the temporary queue.
\<close>

fun erase_stack_loop :: "int \<Rightarrow> nat list \<Rightarrow> 'a list \<Rightarrow> 'a list \<Rightarrow> error + ('a list \<times> 'a list)" where
  "erase_stack_loop idx [] st tq = Inr (st, tq)"
| "erase_stack_loop idx (i # js) st tq =
     (case stack_peek st of
        Inl e \<Rightarrow> Inl e
      | Inr l \<Rightarrow>
          (if int i = idx then
             (case stack_pop st of
                Inl e \<Rightarrow> Inl e
              | Inr (_, st') \<Rightarrow> Inr (st', tq))
           else
             (case stack_pop st of
                Inl e \<Rightarrow> Inl e
              | Inr (_, st') \<Rightarrow>
                  (case queue_append 100 tq l of
                     Inl e \<Rightarrow> Inl e
                   | Inr tq' \<Rightarrow> erase_stack_loop idx js st' tq'))))"

text \<open>\<^verbatim>\<open>while not temp_queue.is_empty(): self.stack.push(temp_queue.serve())\<close>\<close>

fun erase_push_loop :: "'a list \<Rightarrow> 'a list \<Rightarrow> error + ('a list \<times> 'a list)" where
  "erase_push_loop [] st = Inr (st, [])"
| "erase_push_loop (l # tq) st =
     (case stack_push 100 st l of
        Inl e \<Rightarrow> Inl e
      | Inr st' \<Rightarrow> erase_push_loop tq st')"

text \<open>The loop over \<^verbatim>\<open>range(len(self.queue))\<close>: serve, stop at \<open>i = index\<close>, else append again.\<close>

fun erase_queue_loop :: "int \<Rightarrow> nat list \<Rightarrow> 'a list \<Rightarrow> error + 'a list" where
  "erase_queue_loop idx [] q = Inr q"
| "erase_queue_loop idx (i # js) q =
     (case queue_serve q of
        Inl e \<Rightarrow> Inl e
      | Inr (l, q') \<Rightarrow>
          (if int i = idx then Inr q'
           else
             (case queue_append 100 q' l of
                Inl e \<Rightarrow> Inl e
              | Inr q'' \<Rightarrow> erase_queue_loop idx js q'')))"

text \<open>\<^verbatim>\<open>while not temp_queue.is_empty(): self.queue.append(temp_queue.serve())\<close>\<close>

fun erase_append_loop :: "'a list \<Rightarrow> 'a list \<Rightarrow> error + 'a list" where
  "erase_append_loop [] q = Inr q"
| "erase_append_loop (l # tq) q =
     (case queue_append 100 q l of
        Inl e \<Rightarrow> Inl e
      | Inr q' \<Rightarrow> erase_append_loop tq q')"

text \<open>The method has no \<^verbatim>\<open>return\<close> statement: its value is \<^verbatim>\<open>None\<close>.\<close>

definition additive_erase :: "AdditiveLayerStore \<Rightarrow> int \<Rightarrow> error + (AdditiveLayerStore \<times> pyval)" where
  "additive_erase s idx =
     (case erase_stack_loop idx [0..<length (stack s)] (stack s) [] of
        Inl e \<Rightarrow> Inl e
      | Inr (st1, tq1) \<Rightarrow>
     (case erase_push_loop tq1 st1 of
        Inl e \<Rightarrow> Inl e
      | Inr (st2, tq2) \<Rightarrow>
     (case erase_queue_loop idx [0..<length (queue s)] (queue s) of
        Inl e \<Rightarrow> Inl e
      | Inr q1 \<Rightarrow>
     (case erase_append_loop tq2 q1 of
        Inl e \<Rightarrow> Inl e
      | Inr q2 \<Rightarrow> Inr (\<lparr>stack = st2, queue = q2\<rparr>, PyNone)))))"

section \<open>SequenceLayerStore\<close>

text \<open>
  Modelled from the spec: \<^verbatim>\<open>ArraySortedList\<close> is not among the source files. The store is
  the spec's sequence of layer references, unique by identity and kept in ascending order
  of \<open>index\<close> on insertion; \<^verbatim>\<open>in\<close> tests membership and \<^verbatim>\<open>remove\<close> deletes the reference.
\<close>

type_synonym SequenceLayerStore = "ref list"

definition sequence_init :: SequenceLayerStore where
  "sequence_init = []"

definition sequence_add :: "heap \<Rightarrow> SequenceLayerStore \<Rightarrow> ref \<Rightarrow> SequenceLayerStore \<times> bool" where
  "sequence_add h s r =
     (if r \<in> set s then (s, False)
      else (insort_key (\<lambda>l. index (h l)) r s, True))"

definition sequence_erase :: "SequenceLayerStore \<Rightarrow> ref \<Rightarrow> SequenceLayerStore \<times> bool" where
  "sequence_erase s r =
     (if r \<in> set s then (remove1 r s, True)
      else (s, False))"

text \<open>
  The first loop of \<^verbatim>\<open>get_color\<close>: every layer whose \<open>timestamp\<close> and \<open>start\<close> are at most
  the arguments becomes \<^verbatim>\<open>curr_layer\<close> and is pushed on \<^verbatim>\<open>valid_layers\<close> (top first).
  \<^verbatim>\<open>Stack()\<close> is given no capacity and is read as an unbounded stack.
\<close>

fun valid_loop :: "heap \<Rightarrow> int \<Rightarrow> int \<Rightarrow> ref list \<Rightarrow> ref option \<Rightarrow> ref list \<Rightarrow> ref option \<times> ref list" where
  "valid_loop h st ts [] curr_layer valid_layers = (curr_layer, valid_layers)"
| "valid_loop h st ts (l # ls) curr_layer valid_layers =
     (if timestamp (h l) \<le> ts \<and> start (h l) \<le> st
      then valid_loop h st ts ls (Some l) (l # valid_layers)
      else valid_loop h st ts ls curr_layer valid_layers)"

text \<open>The second loop pops the valid layers and compares each color with the current layer's.\<close>

fun pick_loop :: "heap \<Rightarrow> int \<Rightarrow> int \<Rightarrow> ref list \<Rightarrow> ref \<Rightarrow> rgb \<Rightarrow> rgb" where
  "pick_loop h x y [] curr_layer c = c"
| "pick_loop h x y (l # valid_layers) curr_layer c =
     (if get_color_l (h l) x y \<noteq> get_color_l (h curr_layer) x y
      then pick_loop h x y valid_layers l (get_color_l (h l) x y)
      else pick_loop h x y valid_layers curr_layer c)"

text \<open>
  \<^verbatim>\<open>color = curr_layer.get_color(x, y)\<close> is evaluated with \<^verbatim>\<open>curr_layer\<close> still \<^verbatim>\<open>None\<close> when
  no layer passed the test of the first loop: an \<^verbatim>\<open>AttributeError\<close>.
\<close>

definition sequence_get_color ::
  "heap \<Rightarrow> SequenceLayerStore \<Rightarrow> int \<Rightarrow> int \<Rightarrow> int \<Rightarrow> int \<Rightarrow> error + rgb" where
  "sequence_get_color h s st ts x y =
     (case valid_loop h st ts s None [] of
        (None, valid_layers) \<Rightarrow> Inl AttributeError
      | (Some curr_layer, valid_layers) \<Rightarrow>
          Inr (pick_loop h x y valid_layers curr_layer (get_color_l (h curr_layer) x y)))"

text \<open>
  The loop of \<^verbatim>\<open>special\<close> over the queue sorted by name: it keeps the layer served first
  and drops the one served after it, until the queue is empty.
\<close>

fun median_loop :: "'a list \<Rightarrow> 'a list" where
  "median_loop [] = []"
| "median_loop [l] = [l]"
| "median_loop (l # l' # q) = l # median_loop q"

text \<open>
  The names that \<^verbatim>\<open>layer_store.py\<close> binds at module level: its imports and its four classes.
  A name that a method calls and that is neither local, nor one of these, nor a builtin
  raises \<^verbatim>\<open>NameError\<close> when the call is reached.
\<close>

definition module_names :: "string list" where
  "module_names =
     [''annotations'', ''ABC'', ''abstractmethod'', ''Layer'', ''ArrayR'', ''Queue'',
      ''CircularQueue'', ''TestQueue'', ''Stack'', ''ArrayStack'', ''ArraySortedList'',
      ''rainbow'', ''black'', ''lighten'', ''invert'', ''red'', ''green'', ''blue'', ''sparkle'',
      ''darken'', ''LayerStore'', ''SetLayerStore'', ''AdditiveLayerStore'',
      ''SequenceLayerStore'']"

definition lookup_name :: "string \<Rightarrow> error + unit" where
  "lookup_name n = (if n \<in> set module_names then Inr () else Inl NameError)"

text \<open>
  \<^verbatim>\<open>special\<close>. Its first statement calls \<^verbatim>\<open>CircularQueueQueue()\<close> and a later one \<^verbatim>\<open>List()\<close>;
  both names are looked up when the statement runs. The statements between and after
  them are translated as they stand: the stored layers are appended to the queue,
  \<^verbatim>\<open>layer_queue.sort(key=lambda x: x.name)\<close> is a stable sort by name under the
  lexicographic order of strings, the order that \<^verbatim>\<open>median_layers.sort()\<close> puts layer
  objects in is not given by the source files (the function \<open>srt\<close> stands for it), and
  every layer of the sorted list is erased.
\<close>

definition sequence_special ::
  "(ref list \<Rightarrow> ref list) \<Rightarrow> heap \<Rightarrow> SequenceLayerStore \<Rightarrow> error + SequenceLayerStore" where
  "sequence_special srt h s =
     (case lookup_name ''CircularQueueQueue'' of
        Inl e \<Rightarrow> Inl e
      | Inr _ \<Rightarrow>
          (let layer_queue = sort_key (\<lambda>l. name (h l)) s
           in (case lookup_name ''List'' of
                 Inl e \<Rightarrow> Inl e
               | Inr _ \<Rightarrow>
                   (let median_layers = srt (median_loop layer_queue)
                    in Inr (fold (\<lambda>l s'. fst (sequence_erase s' l)) median_layers s)))))"

section \<open>The channel-wise sum of colors\<close>

text \<open>
  What the additive \<^verbatim>\<open>get_color\<close> is compared with, written from the claim's words and
  without the functions of the code: \<open>stored_colors\<close> lists the \<open>color\<close> field of every
  layer of a list (an entry that is no layer has none), and \<open>sum_rgb\<close> adds a list of
  triples channel by channel.
\<close>

definition stored_colors :: "heap \<Rightarrow> ref option list \<Rightarrow> rgb list" where
  "stored_colors h ls =
     map (\<lambda>r. color (h r)) (concat (map (\<lambda>l. case l of Some r \<Rightarrow> [r] | None \<Rightarrow> []) ls))"

definition sum_rgb :: "rgb list \<Rightarrow> rgb" where
  "sum_rgb cs =
     (sum_list (map (\<lambda>c. fst c) cs),
      sum_list (map (\<lambda>c. fst (snd c)) cs),
      sum_list (map (\<lambda>c. snd (snd c)) cs))"

definition background_plus :: "rgb \<Rightarrow> rgb list \<Rightarrow> rgb" where
  "background_plus bg cs =
     (fst bg + fst (sum_rgb cs),
      fst (snd bg) + fst (snd (sum_rgb cs)),
      snd (snd bg) + snd (snd (sum_rgb cs)))"

text \<open>
  For the proofs about the loop of \<^verbatim>\<open>get_color\<close>: what the loop has accumulated over a
  list of entries, in terms of the code's own \<open>layer_color\<close>.
\<close>

definition color_sum :: "heap \<Rightarrow> ref option list \<Rightarrow> rgb" where
  "color_sum h ls =
     (sum_list (map (\<lambda>l. fst (layer_color h l)) ls),
      sum_list (map (\<lambda>l. fst (snd (layer_color h l))) ls),
      sum_list (map (\<lambda>l. snd (snd (layer_color h l))) ls))"

section \<open>Example layers\<close>

definition mk_layer :: "int \<Rightarrow> string \<Rightarrow> rgb \<Rightarrow> Layer" where
  "mk_layer i n c =
     \<lparr>index = i, name = n, apply_l = (\<lambda>b ts x y. c), color = c,
      timestamp = 0, start = 0, get_color_l = (\<lambda>x y. c)\<rparr>"

text \<open>
  A catalog of flat layers: the object at address \<open>r\<close> has index \<open>r\<close>, the \<open>r\<close>-th name of
  the list (the empty name beyond it) and the color \<open>(r + 1, 0, 0)\<close>.
\<close>

definition catalog :: "string list \<Rightarrow> heap" where
  "catalog ns r = mk_layer (int r) (if r < length ns then ns ! r else []) (int r + 1, 0, 0)"

text \<open>
  Flat layers with three different channels: the object at address \<open>r\<close> has the color
  \<open>(r + 1, 10 r + 2, 100 r + 3)\<close>.
\<close>

definition palette :: heap where
  "palette r = mk_layer (int r) [] (int r + 1, 10 * int r + 2, 100 * int r + 3)"

section \<open>SetLayerStore: inversion\<close>

lemma invert_color_twice: "invert_color (invert_color f) = f"
  by (auto simp: invert_color_def fun_eq_iff split: prod.splits)

lemma invert_color_funpow_twice: "(invert_color ^^ k) ((invert_color ^^ k) f) = f"
proof (induction k arbitrary: f)
  case 0
  show ?case by simp
next
  case (Suc k)
  have "(invert_color ^^ Suc k) ((invert_color ^^ Suc k) f)
      = (invert_color ^^ k) (invert_color (invert_color ((invert_color ^^ k) f)))"
    by (simp add: funpow_swap1)
  also have "\<dots> = (invert_color ^^ k) ((invert_color ^^ k) f)"
    by (simp add: invert_color_twice)
  finally show ?case using Suc.IH by simp
qed

text \<open>
  What the loop of \<^verbatim>\<open>special\<close> does to the object at address \<open>r\<close>: its \<open>apply\<close> is inverted
  once for every visited slot that references it, and no other field changes.
\<close>

lemma fold_set_special_step:
  "fold (set_special_step a) js h r =
     (h r)\<lparr>apply_l := (invert_color ^^ length (filter (\<lambda>i. a ! i = Some r) js)) (apply_l (h r))\<rparr>"
proof (induction js arbitrary: h)
  case Nil
  show ?case by simp
next
  case (Cons j js)
  have "fold (set_special_step a) (j # js) h r = fold (set_special_step a) js (set_special_step a j h) r"
    by simp
  also have "\<dots> = (set_special_step a j h r)\<lparr>apply_l :=
      (invert_color ^^ length (filter (\<lambda>i. a ! i = Some r) js)) (apply_l (set_special_step a j h r))\<rparr>"
    by (rule Cons.IH)
  also have "\<dots> = (h r)\<lparr>apply_l :=
      (invert_color ^^ length (filter (\<lambda>i. a ! i = Some r) (j # js))) (apply_l (h r))\<rparr>"
    by (cases "a ! j") (simp_all add: set_special_step_def funpow_swap1)
  finally show ?case .
qed

lemma set_special_apply:
  "set_special h s r =
     (h r)\<lparr>apply_l :=
        (invert_color ^^ length (filter (\<lambda>i. layers s ! i = Some r) [0..<length (layers s)]))
          (apply_l (h r))\<rparr>"
  by (simp add: set_special_def fold_set_special_step)

lemma set_special_unreferenced:
  assumes "Some r \<notin> set (layers s)"
  shows "set_special h s r = h r"
proof -
  have "filter (\<lambda>i. layers s ! i = Some r) [0..<length (layers s)] = []"
    using assms by (auto simp: filter_empty_conv) (metis nth_mem)
  then show ?thesis by (simp add: set_special_apply)
qed

lemma set_add_first:
  "set_add (catalog []) set_init (Some 0)
     = Inr (\<lparr>layer = Some 0, layers = Some 0 # replicate 19 None\<rparr>, True)"
  by (simp add: set_add_def set_init_def ArrayR_def array_set_def catalog_def mk_layer_def
      numeral_eq_Suc)

lemma set_special_first_apply:
  "apply_l (set_special (catalog []) \<lparr>layer = Some 0, layers = Some 0 # replicate 19 None\<rparr> 0)
     (0, 0, 0) 0 0 0 = (254, 255, 255)"
  by code_simp

text \<open>
  Claim C8. For every state of a SetLayerStore, every base color and every timestamp and
  position, \<^verbatim>\<open>get_color\<close> after two calls of \<^verbatim>\<open>special\<close> in succession returns what it
  returned before them: each call inverts the \<open>apply\<close> of the objects in the slots, and the
  inversion \<open>255 - channel\<close> undoes itself.
\<close>

theorem set_special_twice_get_color:
  "set_get_color (set_special (set_special h s) s) s c ts x y = set_get_color h s c ts x y"
  by (simp add: set_get_color_def set_special_apply invert_color_funpow_twice split: option.splits)

text \<open>
  Claim C9. The claim's invariant (the current layer is set if and only if exactly one slot
  is non-null) does not survive two \<^verbatim>\<open>add\<close> calls with layers of different index: from the
  empty store, adding the layer of index 0 and then the layer of index 1 leaves the slots
  0 and 1 both occupied, because \<^verbatim>\<open>add\<close> never clears the slot of the layer it replaces.
\<close>

theorem set_add_twice_two_slots:
  "set_add (catalog []) set_init (Some 0)
     = Inr (\<lparr>layer = Some 0, layers = Some 0 # replicate 19 None\<rparr>, True)
   \<and> set_add (catalog []) \<lparr>layer = Some 0, layers = Some 0 # replicate 19 None\<rparr> (Some 1)
     = Inr (\<lparr>layer = Some 1, layers = Some 0 # Some 1 # replicate 18 None\<rparr>, True)"
  by (simp add: set_add_def set_init_def ArrayR_def array_set_def catalog_def mk_layer_def
      numeral_eq_Suc)

text \<open>
  Claim C10, as stated, fails: after \<^verbatim>\<open>add\<close> of the layer at address 0 to the empty store,
  \<^verbatim>\<open>special\<close> changes that layer object (its \<open>apply\<close> now returns the inverted color).
\<close>

theorem set_special_modifies_layer:
  "set_add (catalog []) set_init (Some 0)
     = Inr (\<lparr>layer = Some 0, layers = Some 0 # replicate 19 None\<rparr>, True)
   \<and> set_special (catalog []) \<lparr>layer = Some 0, layers = Some 0 # replicate 19 None\<rparr> 0
     \<noteq> catalog [] 0"
proof -
  have "set_special (catalog []) \<lparr>layer = Some 0, layers = Some 0 # replicate 19 None\<rparr> 0
     \<noteq> catalog [] 0"
  proof
    assume "set_special (catalog []) \<lparr>layer = Some 0, layers = Some 0 # replicate 19 None\<rparr> 0
      = catalog [] 0"
    then have "apply_l (set_special (catalog [])
          \<lparr>layer = Some 0, layers = Some 0 # replicate 19 None\<rparr> 0) (0, 0, 0) 0 0 0
        = apply_l (catalog [] 0) (0, 0, 0) 0 0 0"
      by simp
    then show False
      by (simp add: set_special_first_apply) (simp add: catalog_def mk_layer_def)
  qed
  then show ?thesis
    using set_add_first by simp
qed

text \<open>
  Claim C10, amended. \<^verbatim>\<open>SetLayerStore.special\<close> is the one operation that assigns to a
  field of a layer (every other operation of the three stores only reads the heap). It
  leaves \<open>index\<close>, \<open>name\<close>, \<open>color\<close> and the other fields of every layer as they were and
  replaces \<open>apply\<close> by its inversion, once for each slot that references the layer; a layer
  that no slot references is not modified at all.
\<close>

theorem set_special_frame:
  "index (set_special h s r) = index (h r)
   \<and> name (set_special h s r) = name (h r)
   \<and> color (set_special h s r) = color (h r)
   \<and> timestamp (set_special h s r) = timestamp (h r)
   \<and> start (set_special h s r) = start (h r)
   \<and> get_color_l (set_special h s r) = get_color_l (h r)
   \<and> apply_l (set_special h s r)
       = (invert_color ^^ length (filter (\<lambda>i. layers s ! i = Some r) [0..<length (layers s)]))
           (apply_l (h r))
   \<and> (Some r \<notin> set (layers s) \<longrightarrow> set_special h s r = h r)"
proof -
  have "Some r \<notin> set (layers s) \<longrightarrow> set_special h s r = h r"
    by (simp add: set_special_unreferenced)
  moreover have "set_special h s r =
     (h r)\<lparr>apply_l :=
        (invert_color ^^ length (filter (\<lambda>i. layers s ! i = Some r) [0..<length (layers s)]))
          (apply_l (h r))\<rparr>"
    by (rule set_special_apply)
  ultimately show ?thesis
    by simp
qed

theorem set_special_frame_witness:
  "Some 0 \<notin> set (layers set_init)
   \<and> set_special (catalog []) set_init 0 = catalog [] 0
   \<and> name (set_special (catalog [''red'']) \<lparr>layer = Some 0, layers = Some 0 # replicate 19 None\<rparr> 0)
       = ''red''"
proof -
  have "Some 0 \<notin> set (layers set_init)"
    by (simp add: set_init_def ArrayR_def)
  moreover have "name (catalog [''red''] 0) = ''red''"
    by (simp add: catalog_def mk_layer_def)
  ultimately show ?thesis
    using set_special_frame [of "catalog []" set_init 0]
      set_special_frame [of "catalog [''red'']"
        "\<lparr>layer = Some 0, layers = Some 0 # replicate 19 None\<rparr>" 0]
    by simp
qed

section \<open>AdditiveLayerStore: color accumulation\<close>

lemma color_sum_Nil: "add_rgb c (color_sum h []) = c"
  by (cases c) (simp add: color_sum_def)

lemma color_sum_Cons:
  "add_rgb (add_rgb c (layer_color h l)) (color_sum h ls) = add_rgb c (color_sum h (l # ls))"
  by (cases c; cases "layer_color h l") (simp add: color_sum_def)

lemma sum_list_map_mset:
  fixes f :: "'a \<Rightarrow> int"
  assumes "mset xs = mset ys"
  shows "sum_list (map f xs) = sum_list (map f ys)"
proof -
  have "sum_list (map f xs) = sum_mset (image_mset f (mset xs))"
    by (metis mset_map sum_mset_sum_list)
  also have "\<dots> = sum_mset (image_mset f (mset ys))"
    using assms by simp
  also have "\<dots> = sum_list (map f ys)"
    by (metis mset_map sum_mset_sum_list)
  finally show ?thesis .
qed

lemma color_sum_mset: "mset ls' = mset ls \<Longrightarrow> color_sum h ls' = color_sum h ls"
  unfolding color_sum_def
  by (simp add: sum_list_map_mset [of ls' ls])

text \<open>Within capacity, neither loop of \<^verbatim>\<open>get_color\<close> overflows a stack.\<close>

lemma get_color_loop_run:
  "length st + length tmp \<le> 100 \<Longrightarrow>
   get_color_loop h st c tmp = Inr (add_rgb c (color_sum h st), rev st @ tmp)"
proof (induction st arbitrary: c tmp)
  case Nil
  show ?case by (simp add: color_sum_Nil)
next
  case (Cons l st)
  from Cons.prems have "length st + length (l # tmp) \<le> 100" by simp
  then have "get_color_loop h st (add_rgb c (layer_color h l)) (l # tmp)
      = Inr (add_rgb (add_rgb c (layer_color h l)) (color_sum h st), rev st @ l # tmp)"
    by (rule Cons.IH)
  moreover from Cons.prems have "stack_push 100 tmp l = Inr (l # tmp)"
    by (simp add: stack_push_def)
  ultimately show ?case
    by (simp add: color_sum_Cons)
qed

lemma restore_loop_run:
  "length tmp + length st \<le> 100 \<Longrightarrow> restore_loop tmp st = Inr (rev tmp @ st)"
proof (induction tmp arbitrary: st)
  case Nil
  show ?case by simp
next
  case (Cons l tmp)
  from Cons.prems have "length tmp + length (l # st) \<le> 100" by simp
  then have "restore_loop tmp (l # st) = Inr (rev tmp @ l # st)"
    by (rule Cons.IH)
  moreover from Cons.prems have "stack_push 100 st l = Inr (l # st)"
    by (simp add: stack_push_def)
  ultimately show ?case by simp
qed

lemma additive_get_color_run:
  assumes "length (stack s) \<le> 100"
  shows "additive_get_color h s bg x y z = Inr (s, add_rgb bg (color_sum h (stack s)))"
proof -
  have "get_color_loop h (stack s) bg [] = Inr (add_rgb bg (color_sum h (stack s)), rev (stack s))"
    using assms get_color_loop_run [of "stack s" "[]" h bg] by simp
  moreover have "restore_loop (rev (stack s)) [] = Inr (stack s)"
    using assms restore_loop_run [of "rev (stack s)" "[]"] by simp
  ultimately show ?thesis
    by (simp add: additive_get_color_def)
qed

lemma additive_adds_run:
  "length (stack s) + length ls \<le> 100 \<Longrightarrow> length (queue s) + length ls \<le> 100 \<Longrightarrow>
   additive_adds s ls = Inr \<lparr>stack = rev ls @ stack s, queue = queue s @ ls\<rparr>"
proof (induction ls arbitrary: s)
  case Nil
  show ?case by simp
next
  case (Cons l ls)
  let ?s' = "\<lparr>stack = l # stack s, queue = queue s @ [l]\<rparr>"
  from Cons.prems have "additive_add s l = Inr ?s'"
    by (simp add: additive_add_def stack_push_def queue_append_def)
  moreover from Cons.prems
  have "additive_adds ?s' ls = Inr \<lparr>stack = rev ls @ stack ?s', queue = queue ?s' @ ls\<rparr>"
    by (intro Cons.IH) simp_all
  ultimately show ?case by simp
qed

text \<open>The accumulated value is the background plus the channel-wise sum of the stored colors.\<close>

lemma stored_colors_Cons:
  "stored_colors h (l # ls) =
     (case l of Some r \<Rightarrow> color (h r) # stored_colors h ls | None \<Rightarrow> stored_colors h ls)"
  by (cases l) (simp_all add: stored_colors_def)

lemma color_sum_stored: "color_sum h ls = sum_rgb (stored_colors h ls)"
proof (induction ls)
  case Nil
  show ?case by (simp add: color_sum_def sum_rgb_def stored_colors_def)
next
  case (Cons l ls)
  have "color_sum h (l # ls) = add_rgb (layer_color h l) (color_sum h ls)"
    by (cases "layer_color h l") (simp add: color_sum_def)
  also have "\<dots> = add_rgb (layer_color h l) (sum_rgb (stored_colors h ls))"
    by (simp only: Cons.IH)
  also have "\<dots> = sum_rgb (stored_colors h (l # ls))"
  proof (cases l)
    case None
    then show ?thesis
      by (simp add: layer_color_def stored_colors_Cons sum_rgb_def)
  next
    case (Some r)
    then show ?thesis
      by (cases "color (h r)") (simp add: layer_color_def stored_colors_Cons sum_rgb_def)
  qed
  finally show ?case .
qed

lemma add_rgb_background_plus:
  "add_rgb bg (color_sum h ls) = background_plus bg (stored_colors h ls)"
  by (cases bg; cases "sum_rgb (stored_colors h ls)") (simp add: color_sum_stored background_plus_def)

text \<open>
  Claim C7. For every AdditiveLayerStore within its capacity of 100, \<^verbatim>\<open>get_color\<close> returns
  the background plus the channel-wise sum of the colors of the layers on its stack (each
  of the three channels is the background's channel plus the sum of that channel over the
  stored layers) and leaves the store as it was. For stores built by \<^verbatim>\<open>add\<close> calls from
  the empty store, these are the added layers, and two runs of \<^verbatim>\<open>add\<close> calls over the same
  multiset of at most 100 layers, in any order, give the same color.
\<close>

theorem additive_get_color_sum:
  "(length (stack s) \<le> 100 \<longrightarrow>
      additive_get_color h s bg x y z
        = Inr (s, background_plus bg (stored_colors h (stack s))))
   \<and> (length ls \<le> 100 \<and> mset ls' = mset ls \<longrightarrow>
      (\<exists>t t'. additive_adds additive_init ls = Inr t
         \<and> additive_adds additive_init ls' = Inr t'
         \<and> additive_get_color h t bg x y z = Inr (t, background_plus bg (stored_colors h ls))
         \<and> additive_get_color h t' bg x y z = Inr (t', background_plus bg (stored_colors h ls))))"
proof (intro conjI impI)
  assume "length (stack s) \<le> 100"
  then show "additive_get_color h s bg x y z
      = Inr (s, background_plus bg (stored_colors h (stack s)))"
    by (simp add: additive_get_color_run add_rgb_background_plus)
next
  assume a: "length ls \<le> 100 \<and> mset ls' = mset ls"
  then have len: "length ls' = length ls"
    by (metis size_mset)
  let ?t = "\<lparr>stack = rev ls, queue = ls\<rparr>"
  let ?t' = "\<lparr>stack = rev ls', queue = ls'\<rparr>"
  let ?c = "background_plus bg (stored_colors h ls)"
  have t: "additive_adds additive_init ls = Inr ?t"
    using a additive_adds_run [of additive_init ls] by (simp add: additive_init_def)
  have t': "additive_adds additive_init ls' = Inr ?t'"
    using a len additive_adds_run [of additive_init ls'] by (simp add: additive_init_def)
  have "color_sum h (rev ls) = color_sum h ls"
    by (rule color_sum_mset) simp
  then have g: "additive_get_color h ?t bg x y z = Inr (?t, ?c)"
    using a additive_get_color_run [of ?t h bg x y z] by (simp add: add_rgb_background_plus)
  have "color_sum h (rev ls') = color_sum h ls"
    using a by (intro color_sum_mset) simp
  then have g': "additive_get_color h ?t' bg x y z = Inr (?t', ?c)"
    using a len additive_get_color_run [of ?t' h bg x y z]
    by (simp add: add_rgb_background_plus)
  from t t' g g' show "\<exists>t t'. additive_adds additive_init ls = Inr t
         \<and> additive_adds additive_init ls' = Inr t'
         \<and> additive_get_color h t bg x y z = Inr (t, ?c)
         \<and> additive_get_color h t' bg x y z = Inr (t', ?c)"
    by blast
qed

text \<open>
  At the layers of colors \<open>(1, 2, 3)\<close> and \<open>(2, 12, 103)\<close> and an entry that is no layer,
  over the background \<open>(10, 20, 30)\<close>: every channel is summed, \<open>(13, 34, 136)\<close>.
\<close>

theorem additive_get_color_sum_witness:
  "additive_get_color palette
       \<lparr>stack = [Some 1, None, Some 0], queue = [Some 0, None, Some 1]\<rparr> (10, 20, 30) 0 0 0
     = Inr (\<lparr>stack = [Some 1, None, Some 0], queue = [Some 0, None, Some 1]\<rparr>, (13, 34, 136))
   \<and> (\<exists>t t'. additive_adds additive_init [Some 0, None, Some 1] = Inr t
         \<and> additive_adds additive_init [Some 1, Some 0, None] = Inr t'
         \<and> additive_get_color palette t (10, 20, 30) 0 0 0 = Inr (t, (13, 34, 136))
         \<and> additive_get_color palette t' (10, 20, 30) 0 0 0 = Inr (t', (13, 34, 136)))"
  using additive_get_color_sum
    [of "\<lparr>stack = [Some 1, None, Some 0], queue = [Some 0, None, Some 1]\<rparr>"
      palette "(10, 20, 30)" 0 0 0 "[Some 0, None, Some 1]" "[Some 1, Some 0, None]"]
  by (simp add: background_plus_def sum_rgb_def stored_colors_def palette_def mk_layer_def)

section \<open>AdditiveLayerStore: special and erase\<close>

lemmas container_defs =
  stack_push_def stack_pop_def stack_peek_def queue_append_def queue_serve_def

text \<open>
  Claim C2. The claim's rotation does not happen: after \<^verbatim>\<open>add(A); add(B); add(C)\<close> (the
  layers at the addresses 0, 1, 2), \<^verbatim>\<open>special\<close> pops the top of the stack and pushes it
  back, so the stack, which \<^verbatim>\<open>get_color\<close> and \<^verbatim>\<open>erase\<close> traverse, is still C, B, A from the
  top; the queue gets a second reference to C and becomes C, A, B, C.
\<close>

theorem additive_special_no_rotation:
  "additive_adds additive_init [Some 0, Some 1, Some 2]
     = Inr \<lparr>stack = [Some 2, Some 1, Some 0], queue = [Some 0, Some 1, Some 2]\<rparr>
   \<and> additive_special \<lparr>stack = [Some 2, Some 1, Some 0], queue = [Some 0, Some 1, Some 2]\<rparr>
     = Inr \<lparr>stack = [Some 2, Some 1, Some 0], queue = [Some 2, Some 0, Some 1, Some 2]\<rparr>"
  by (simp add: additive_init_def additive_add_def additive_special_def container_defs
      numeral_eq_Suc)

text \<open>
  Claim C4. After \<^verbatim>\<open>add(A); add(B)\<close> (the layers at the addresses 0 and 1, of colors
  \<open>(1, 0, 0)\<close> and \<open>(2, 0, 0)\<close>), \<^verbatim>\<open>erase(0)\<close> pops B, the latest layer, from the stack and
  serves A from the queue; \<^verbatim>\<open>get_color\<close>, which reads the stack, then reflects A's color
  and not B's.
\<close>

theorem additive_erase_first_removes_latest:
  "additive_adds additive_init [Some 0, Some 1]
     = Inr \<lparr>stack = [Some 1, Some 0], queue = [Some 0, Some 1]\<rparr>
   \<and> additive_erase \<lparr>stack = [Some 1, Some 0], queue = [Some 0, Some 1]\<rparr> 0
     = Inr (\<lparr>stack = [Some 0], queue = [Some 1]\<rparr>, PyNone)
   \<and> additive_get_color (catalog []) \<lparr>stack = [Some 0], queue = [Some 1]\<rparr> (10, 20, 30) 0 0 0
     = Inr (\<lparr>stack = [Some 0], queue = [Some 1]\<rparr>, (11, 20, 30))
   \<and> color (catalog [] 0) = (1, 0, 0) \<and> color (catalog [] 1) = (2, 0, 0)"
  by (simp add: additive_init_def additive_add_def additive_erase_def additive_get_color_def
      layer_color_def catalog_def mk_layer_def container_defs upt_rec)

lemma sequence_special_raises: "sequence_special srt h s = Inl NameError"
  by (simp add: sequence_special_def lookup_name_def module_names_def)

text \<open>
  Claim C5. On the empty stores, \<^verbatim>\<open>special\<close> of the SetLayerStore changes no layer, but
  \<^verbatim>\<open>special\<close> of the AdditiveLayerStore reads the top of the empty stack first and raises,
  and \<^verbatim>\<open>special\<close> of the SequenceLayerStore raises at its first statement, which calls a
  name that is bound nowhere.
\<close>

theorem special_on_empty_stores:
  "set_special h set_init = h
   \<and> additive_special additive_init = Inl StackEmpty
   \<and> sequence_special srt h sequence_init = Inl NameError"
proof -
  have "set_special h set_init = h"
    by (rule ext) (simp add: set_special_unreferenced set_init_def ArrayR_def)
  moreover have "additive_special additive_init = Inl StackEmpty"
    by (simp add: additive_special_def additive_init_def stack_peek_def)
  moreover have "sequence_special srt h sequence_init = Inl NameError"
    by (rule sequence_special_raises)
  ultimately show ?thesis by simp
qed

text \<open>
  \<^verbatim>\<open>erase\<close> at a position that the loop over the stack never reaches: every layer is popped
  into the temporary queue and pushed back from its front.
\<close>

lemma erase_stack_loop_absent:
  "idx \<notin> int ` set js \<Longrightarrow> length js \<le> length st \<Longrightarrow> length st + length tq \<le> 100 \<Longrightarrow>
   erase_stack_loop idx js st tq = Inr (drop (length js) st, tq @ take (length js) st)"
proof (induction js arbitrary: st tq)
  case Nil
  show ?case by simp
next
  case (Cons i js)
  from Cons.prems obtain l st' where st: "st = l # st'"
    by (cases st) auto
  from Cons.prems st have "erase_stack_loop idx js st' (tq @ [l])
      = Inr (drop (length js) st', (tq @ [l]) @ take (length js) st')"
    by (intro Cons.IH) auto
  moreover from Cons.prems st have "queue_append 100 tq l = Inr (tq @ [l])"
    by (simp add: queue_append_def)
  moreover from Cons.prems have "int i \<noteq> idx"
    by auto
  ultimately show ?case
    using st by (simp add: stack_peek_def stack_pop_def)
qed

lemma erase_push_loop_run:
  "length tq + length st \<le> 100 \<Longrightarrow> erase_push_loop tq st = Inr (rev tq @ st, [])"
proof (induction tq arbitrary: st)
  case Nil
  show ?case by simp
next
  case (Cons l tq)
  from Cons.prems have "erase_push_loop tq (l # st) = Inr (rev tq @ l # st, [])"
    by (intro Cons.IH) simp
  moreover from Cons.prems have "stack_push 100 st l = Inr (l # st)"
    by (simp add: stack_push_def)
  ultimately show ?case by simp
qed

lemma erase_queue_loop_returns:
  "length js \<le> length q \<Longrightarrow> length q \<le> 100 \<Longrightarrow> \<exists>q'. erase_queue_loop idx js q = Inr q'"
proof (induction js arbitrary: q)
  case Nil
  show ?case by simp
next
  case (Cons i js)
  from Cons.prems obtain l q0 where q: "q = l # q0"
    by (cases q) auto
  from Cons.prems q have app: "queue_append 100 q0 l = Inr (q0 @ [l])"
    by (simp add: queue_append_def)
  from Cons.prems q have "\<exists>q'. erase_queue_loop idx js (q0 @ [l]) = Inr q'"
    by (intro Cons.IH) auto
  then show ?case
    using q app by (simp add: queue_serve_def)
qed

lemma additive_erase_absent:
  assumes "length (stack a) \<le> 100" and "length (queue a) \<le> 100"
    and "idx < 0 \<or> int (length (stack a)) \<le> idx"
  shows "\<exists>q'. additive_erase a idx = Inr (\<lparr>stack = rev (stack a), queue = q'\<rparr>, PyNone)"
proof -
  from assms(3) have "idx \<notin> int ` set [0..<length (stack a)]"
    by auto
  with assms(1) have "erase_stack_loop idx [0..<length (stack a)] (stack a) [] = Inr ([], stack a)"
    using erase_stack_loop_absent [of idx "[0..<length (stack a)]" "stack a" "[]"] by simp
  moreover from assms(1) have "erase_push_loop (stack a) [] = Inr (rev (stack a), [])"
    using erase_push_loop_run [of "stack a" "[]"] by simp
  moreover from assms(2)
  obtain q' where "erase_queue_loop idx [0..<length (queue a)] (queue a) = Inr q'"
    using erase_queue_loop_returns [of "[0..<length (queue a)]" "queue a" idx] by auto
  ultimately show ?thesis
    by (simp add: additive_erase_def)
qed

lemma set_erase_absent:
  assumes "0 \<le> index (h r)" and "index (h r) < int (length (layers s))"
    and "layers s ! nat (index (h r)) = None"
  shows "set_erase h s r = Inr (s, False)"
  using assms by (simp add: set_erase_def array_get_def)

text \<open>
  What does hold of \<^verbatim>\<open>erase\<close> where nothing is stored at its target. In a SetLayerStore,
  \<^verbatim>\<open>erase\<close> of a layer whose slot is empty (its index within the slot array) returns false
  and leaves the store as it was; in a SequenceLayerStore, \<^verbatim>\<open>erase\<close> of a layer that is not
  stored does the same. In an AdditiveLayerStore within its capacity, \<^verbatim>\<open>erase\<close> at a
  position outside the stack raises nothing, returns \<^verbatim>\<open>None\<close> and leaves the output of
  \<^verbatim>\<open>get_color\<close> as it was.
\<close>

lemma erase_absent:
  "(0 \<le> index (h r) \<and> index (h r) < int (length (layers s))
      \<and> layers s ! nat (index (h r)) = None
      \<longrightarrow> set_erase h s r = Inr (s, False))
   \<and> (r' \<notin> set q \<longrightarrow> sequence_erase q r' = (q, False))
   \<and> (length (stack a) \<le> 100 \<and> length (queue a) \<le> 100
      \<and> (idx < 0 \<or> int (length (stack a)) \<le> idx)
      \<longrightarrow> (\<exists>a' c. additive_erase a idx = Inr (a', PyNone)
             \<and> additive_get_color h a bg x y z = Inr (a, c)
             \<and> additive_get_color h a' bg x y z = Inr (a', c)))"
proof (intro conjI impI)
  assume "0 \<le> index (h r) \<and> index (h r) < int (length (layers s))
    \<and> layers s ! nat (index (h r)) = None"
  then show "set_erase h s r = Inr (s, False)"
    by (simp add: set_erase_absent)
next
  assume "r' \<notin> set q"
  then show "sequence_erase q r' = (q, False)"
    by (simp add: sequence_erase_def)
next
  assume a: "length (stack a) \<le> 100 \<and> length (queue a) \<le> 100
    \<and> (idx < 0 \<or> int (length (stack a)) \<le> idx)"
  then obtain q' where
    e: "additive_erase a idx = Inr (\<lparr>stack = rev (stack a), queue = q'\<rparr>, PyNone)"
    using additive_erase_absent [of a idx] by auto
  let ?a' = "\<lparr>stack = rev (stack a), queue = q'\<rparr>"
  let ?c = "add_rgb bg (color_sum h (stack a))"
  from a have g: "additive_get_color h a bg x y z = Inr (a, ?c)"
    by (simp add: additive_get_color_run)
  have "color_sum h (rev (stack a)) = color_sum h (stack a)"
    by (rule color_sum_mset) simp
  with a have g': "additive_get_color h ?a' bg x y z = Inr (?a', ?c)"
    using additive_get_color_run [of ?a' h bg x y z] by simp
  from e g g' show "\<exists>a' c. additive_erase a idx = Inr (a', PyNone)
             \<and> additive_get_color h a bg x y z = Inr (a, c)
             \<and> additive_get_color h a' bg x y z = Inr (a', c)"
    by blast
qed

text \<open>
  Claim C6. Erasing what is absent or inactive is not a no-op that returns false in two
  of the three stores. In the AdditiveLayerStore, after \<^verbatim>\<open>add(A); add(B)\<close>, \<^verbatim>\<open>erase(2)\<close>
  addresses a position that holds no layer, yet the value returned is \<^verbatim>\<open>None\<close>, not the
  boolean false, and the store is not as it was: the stack is reversed. In the
  SetLayerStore, after \<^verbatim>\<open>add\<close> of the layers of index 0 and 1, the layer of index 0 is
  inactive (the current layer is the other one) but its slot is still occupied, so
  \<^verbatim>\<open>erase\<close> of it returns true and removes the current layer: \<^verbatim>\<open>get_color\<close> over the
  base \<open>(10, 20, 30)\<close> was \<open>(2, 0, 0)\<close> before and is the base after.
\<close>

theorem erase_absent_changes_store:
  "additive_adds additive_init [Some 0, Some 1]
     = Inr \<lparr>stack = [Some 1, Some 0], queue = [Some 0, Some 1]\<rparr>
   \<and> additive_erase \<lparr>stack = [Some 1, Some 0], queue = [Some 0, Some 1]\<rparr> 2
     = Inr (\<lparr>stack = [Some 0, Some 1], queue = [Some 0, Some 1]\<rparr>, PyNone)
   \<and> additive_erase \<lparr>stack = [Some 1, Some 0], queue = [Some 0, Some 1]\<rparr> 2
     \<noteq> Inr (\<lparr>stack = [Some 1, Some 0], queue = [Some 0, Some 1]\<rparr>, PyBool False)
   \<and> set_add (catalog []) set_init (Some 0)
     = Inr (\<lparr>layer = Some 0, layers = Some 0 # replicate 19 None\<rparr>, True)
   \<and> set_add (catalog []) \<lparr>layer = Some 0, layers = Some 0 # replicate 19 None\<rparr> (Some 1)
     = Inr (\<lparr>layer = Some 1, layers = Some 0 # Some 1 # replicate 18 None\<rparr>, True)
   \<and> set_erase (catalog []) \<lparr>layer = Some 1, layers = Some 0 # Some 1 # replicate 18 None\<rparr> 0
     = Inr (\<lparr>layer = None, layers = None # Some 1 # replicate 18 None\<rparr>, True)
   \<and> set_get_color (catalog []) \<lparr>layer = Some 1, layers = Some 0 # Some 1 # replicate 18 None\<rparr>
         (10, 20, 30) 0 0 0 = (2, 0, 0)
   \<and> set_get_color (catalog []) \<lparr>layer = None, layers = None # Some 1 # replicate 18 None\<rparr>
         (10, 20, 30) 0 0 0 = (10, 20, 30)"
proof -
  have "additive_adds additive_init [Some 0, Some 1]
     = Inr \<lparr>stack = [Some 1, Some 0], queue = [Some 0, Some 1]\<rparr>"
    by (simp add: additive_init_def additive_add_def container_defs)
  moreover have "additive_erase \<lparr>stack = [Some 1, Some 0], queue = [Some 0, Some 1]\<rparr> 2
     = Inr (\<lparr>stack = [Some 0, Some 1], queue = [Some 0, Some 1]\<rparr>, PyNone)"
    by (simp add: additive_erase_def container_defs upt_rec)
  moreover have "set_add (catalog []) set_init (Some 0)
     = Inr (\<lparr>layer = Some 0, layers = Some 0 # replicate 19 None\<rparr>, True)"
    by (rule set_add_first)
  moreover have "set_add (catalog []) \<lparr>layer = Some 0, layers = Some 0 # replicate 19 None\<rparr> (Some 1)
     = Inr (\<lparr>layer = Some 1, layers = Some 0 # Some 1 # replicate 18 None\<rparr>, True)"
    by (simp add: set_add_def array_set_def catalog_def mk_layer_def numeral_eq_Suc)
  moreover have "set_erase (catalog []) \<lparr>layer = Some 1, layers = Some 0 # Some 1 # replicate 18 None\<rparr> 0
     = Inr (\<lparr>layer = None, layers = None # Some 1 # replicate 18 None\<rparr>, True)"
    by (simp add: set_erase_def array_get_def array_set_def catalog_def mk_layer_def)
  moreover have "set_get_color (catalog []) \<lparr>layer = Some 1, layers = Some 0 # Some 1 # replicate 18 None\<rparr>
         (10, 20, 30) 0 0 0 = (2, 0, 0)"
    by (simp add: set_get_color_def catalog_def mk_layer_def)
  moreover have "set_get_color (catalog []) \<lparr>layer = None, layers = None # Some 1 # replicate 18 None\<rparr>
         (10, 20, 30) 0 0 0 = (10, 20, 30)"
    by (simp add: set_get_color_def)
  ultimately show ?thesis
    by simp
qed

section \<open>SequenceLayerStore: get_color and special\<close>

lemma valid_loop_filter:
  "valid_loop h st ts s cur valid =
     (if filter (\<lambda>l. timestamp (h l) \<le> ts \<and> start (h l) \<le> st) s = [] then cur
      else Some (last (filter (\<lambda>l. timestamp (h l) \<le> ts \<and> start (h l) \<le> st) s)),
      rev (filter (\<lambda>l. timestamp (h l) \<le> ts \<and> start (h l) \<le> st) s) @ valid)"
  by (induction s arbitrary: cur valid) simp_all

text \<open>
  Claim C3. Whenever no stored layer passes the test on \<open>timestamp\<close> and \<open>start\<close> (on the
  empty store in particular), \<^verbatim>\<open>get_color\<close> does not return a color: \<^verbatim>\<open>curr_layer\<close> is still
  \<^verbatim>\<open>None\<close> when its \<^verbatim>\<open>get_color\<close> is called, and the call raises.
\<close>

theorem sequence_get_color_no_valid:
  "filter (\<lambda>l. timestamp (h l) \<le> ts \<and> start (h l) \<le> st) s = [] \<Longrightarrow>
   sequence_get_color h s st ts x y = Inl AttributeError"
  by (simp add: sequence_get_color_def valid_loop_filter)

theorem sequence_get_color_no_valid_witness:
  "filter (\<lambda>l. timestamp (catalog [] l) \<le> - 1 \<and> start (catalog [] l) \<le> 0) [0, 1] = []
   \<and> sequence_get_color (catalog []) [0, 1] 0 (- 1) 0 0 = Inl AttributeError
   \<and> sequence_get_color (catalog []) sequence_init 0 0 0 0 = Inl AttributeError"
proof -
  have "filter (\<lambda>l. timestamp (catalog [] l) \<le> - 1 \<and> start (catalog [] l) \<le> 0) [0, 1] = []"
    by (simp add: catalog_def mk_layer_def)
  then show ?thesis
    using sequence_get_color_no_valid [of "catalog []" "- 1" 0 "[0, 1]" 0 0]
      sequence_get_color_no_valid [of "catalog []" 0 0 sequence_init 0 0]
    by (simp add: sequence_init_def)
qed

text \<open>
  Claim C1. \<^verbatim>\<open>special\<close> removes no layer at all, whatever the store holds: its first
  statement calls \<^verbatim>\<open>CircularQueueQueue()\<close>, a name bound nowhere in the module, and the call
  raises \<^verbatim>\<open>NameError\<close> before any layer is looked at. With the five layers named b, a, e,
  c, d (indices and addresses 0 to 4) the layer named c is therefore not removed, and with
  the four layers named a, b, c, d the layer named b is not.
\<close>

theorem sequence_special_name_error:
  "fold (\<lambda>r s. fst (sequence_add (catalog [''b'', ''a'', ''e'', ''c'', ''d'']) s r))
       [0, 1, 2, 3, 4] sequence_init
     = [0, 1, 2, 3, 4]
   \<and> sequence_special srt (catalog [''b'', ''a'', ''e'', ''c'', ''d'']) [0, 1, 2, 3, 4]
     = Inl NameError
   \<and> sequence_special srt (catalog [''a'', ''b'', ''c'', ''d'']) [0, 1, 2, 3] = Inl NameError
   \<and> sequence_special srt h s = Inl NameError"
proof -
  have "fold (\<lambda>r s. fst (sequence_add (catalog [''b'', ''a'', ''e'', ''c'', ''d'']) s r))
       [0, 1, 2, 3, 4] sequence_init
     = [0, 1, 2, 3, 4]"
    by (simp add: sequence_add_def sequence_init_def catalog_def mk_layer_def)
  then show ?thesis
    by (simp add: sequence_special_raises)
qed

end
